theory Spec2Isabelle
  imports Main
begin

section \<open>Values of the analytics controller\<close>

text \<open>
  The Go type \<open>analyticsEvent\<close>: three string fields. \<open>newEvent\<close> returns a pointer
  to a freshly allocated struct, so what travels through the work queue is an address.
\<close>

type_synonym addr = nat

record analyticsEvent =
  objectName :: string
  action :: string
  namespace :: string

text \<open>
  The queue stores \<open>interface{}\<close> values. \<open>EventPtr a\<close> is a \<open>*analyticsEvent\<close> with
  address \<open>a\<close>; \<open>Other n\<close> is any value of another dynamic type (the worker's type
  assertion fails on it). Two interface values holding pointers are equal in Go exactly
  when the addresses are equal, which is the equality of this datatype.
\<close>

datatype item = EventPtr addr | Other nat

text \<open>Go \<open>error\<close> values: a message, or \<open>fmt.Errorf(format, err)\<close> wrapping an error.\<close>

datatype error = Err string | Errorf_error string error

text \<open>
  A watch notification carries an \<open>interface{}\<close>: either the tombstone
  \<open>cache.DeletedFinalStateUnknown{Key, Obj}\<close> or any other value (identified by a number).
\<close>

datatype object = Value nat | DeletedFinalStateUnknown string object

text \<open>Operands of the logging calls, and the observable effects of the program in order.\<close>

datatype arg = S string | E error

datatype effect =
    Errorf string "arg list"
  | Infof nat string "arg list"
  | QueueAdd item
  | QueueGet
  | QueueDone item
  | HttpGet string

section \<open>The watch table\<close>

text \<open>
  The client expression of a list or watch closure: the collection method with the
  namespace argument it is given; \<open>Namespaces()\<close> takes none (the kind is cluster-scoped).
\<close>

datatype collection =
    Pods string
  | ReplicationControllers string
  | PersistentVolumeClaims string
  | Secrets string
  | Services string
  | Namespaces
  | DeploymentConfigs string
  | Routes string
  | Builds string
  | Templates string

datatype client_op = List_op collection | Watch_op collection

datatype objtype =
    Pod | ReplicationController | PersistentVolumeClaim | Secret | Service
  | DeploymentConfig | Route | Build | Template

record watch_entry =
  objType :: objtype
  listFunc :: client_op
  watchFunc :: client_op

text \<open>\<open>api.NamespaceAll\<close> is the empty string in the Kubernetes API package.\<close>

definition NamespaceAll :: string where
  "NamespaceAll = []"

text \<open>The map literal \<open>watches\<close>, entry by entry in the order of the source text.\<close>

definition watches_table :: "(string \<times> watch_entry) list" where
  "watches_table =
    [(''pod'', \<lparr>objType = Pod, listFunc = List_op (Pods NamespaceAll),
        watchFunc = Watch_op (Pods NamespaceAll)\<rparr>),
     (''replication_controller'', \<lparr>objType = ReplicationController,
        listFunc = List_op (ReplicationControllers NamespaceAll),
        watchFunc = Watch_op (ReplicationControllers NamespaceAll)\<rparr>),
     (''pvclaim'', \<lparr>objType = PersistentVolumeClaim,
        listFunc = List_op (PersistentVolumeClaims NamespaceAll),
        watchFunc = Watch_op (PersistentVolumeClaims NamespaceAll)\<rparr>),
     (''secret'', \<lparr>objType = Secret, listFunc = List_op (Secrets NamespaceAll),
        watchFunc = Watch_op (Secrets NamespaceAll)\<rparr>),
     (''service'', \<lparr>objType = Service, listFunc = List_op (Services NamespaceAll),
        watchFunc = Watch_op (Services NamespaceAll)\<rparr>),
     (''namespace'', \<lparr>objType = Service, listFunc = List_op Namespaces,
        watchFunc = Watch_op Namespaces\<rparr>),
     (''deployment'', \<lparr>objType = DeploymentConfig,
        listFunc = List_op (DeploymentConfigs NamespaceAll),
        watchFunc = Watch_op (DeploymentConfigs NamespaceAll)\<rparr>),
     (''route'', \<lparr>objType = Route, listFunc = List_op (Routes NamespaceAll),
        watchFunc = Watch_op (Routes NamespaceAll)\<rparr>),
     (''build'', \<lparr>objType = Build, listFunc = List_op (Builds NamespaceAll),
        watchFunc = Watch_op (Builds NamespaceAll)\<rparr>),
     (''template'', \<lparr>objType = Template, listFunc = List_op (Templates NamespaceAll),
        watchFunc = Watch_op (Templates NamespaceAll)\<rparr>)]"

definition watches :: "string \<rightharpoonup> watch_entry" where
  "watches = map_of watches_table"

text \<open>
  The namespace a client expression is restricted to: the argument of a namespaced
  collection, none for the cluster-scoped \<open>Namespaces()\<close>.
\<close>

fun namespace_arg :: "collection \<Rightarrow> string option" where
  "namespace_arg (Pods ns) = Some ns"
| "namespace_arg (ReplicationControllers ns) = Some ns"
| "namespace_arg (PersistentVolumeClaims ns) = Some ns"
| "namespace_arg (Secrets ns) = Some ns"
| "namespace_arg (Services ns) = Some ns"
| "namespace_arg Namespaces = None"
| "namespace_arg (DeploymentConfigs ns) = Some ns"
| "namespace_arg (Routes ns) = Some ns"
| "namespace_arg (Builds ns) = Some ns"
| "namespace_arg (Templates ns) = Some ns"

fun collection_of :: "client_op \<Rightarrow> collection" where
  "collection_of (List_op c) = c"
| "collection_of (Watch_op c) = c"

text \<open>
  An operation covers all namespaces when it names no single namespace: its namespace
  argument is \<open>api.NamespaceAll\<close>, or the collection is cluster-scoped.
\<close>

definition all_namespaces :: "client_op \<Rightarrow> bool" where
  "all_namespaces op =
     (case namespace_arg (collection_of op) of None \<Rightarrow> True | Some ns \<Rightarrow> ns = NamespaceAll)"

section \<open>The work queue\<close>

record 'a workqueue =
  queued :: "'a list"
  in_flight :: "'a set"
  dirty :: "'a set"
  shutting_down :: bool

text \<open>
  Modelled from the spec: the package \<open>workqueue\<close> (\<open>New\<close>, \<open>Add\<close>, \<open>Get\<close>, \<open>Done\<close>,
  \<open>ShutDown\<close>) is not among the sources. The state is the three collections of section 3
  of the specification (queued in order, in-flight, dirty while in-flight) and the
  shutdown flag; a new queue is empty.
\<close>

definition workqueue_New :: "'a workqueue" where
  "workqueue_New = \<lparr>queued = [], in_flight = {}, dirty = {}, shutting_down = False\<rparr>"

text \<open>
  Modelled from the spec: \<open>Add\<close> inserts the item if it is not already queued; an item
  that is in-flight is marked dirty instead; after shutdown nothing new can be added.
  Items are compared with the equality of the item type.
\<close>

definition Add :: "'a \<Rightarrow> 'a workqueue \<Rightarrow> 'a workqueue" where
  "Add x q =
     (if shutting_down q then q
      else if x \<in> in_flight q then q\<lparr>dirty := insert x (dirty q)\<rparr>
      else if x \<in> set (queued q) then q
      else q\<lparr>queued := queued q @ [x]\<rparr>)"

text \<open>
  Modelled from the spec: \<open>Get\<close> hands out the first queued item and moves it to
  in-flight; on an empty queue it reports shutdown when the queue is shutting down
  (queued items are drained first) and otherwise the caller stays blocked.
\<close>

datatype 'a get_result = Got 'a "'a workqueue" | Quit | Wait

definition Get :: "'a workqueue \<Rightarrow> 'a get_result" where
  "Get q =
     (case queued q of
        [] \<Rightarrow> (if shutting_down q then Quit else Wait)
      | x # xs \<Rightarrow> Got x (q\<lparr>queued := xs, in_flight := insert x (in_flight q)\<rparr>))"

text \<open>
  Modelled from the spec: \<open>Done\<close> marks the item no longer in-flight; an item marked
  dirty while in-flight goes back to the end of the queued items.
\<close>

definition Done :: "'a \<Rightarrow> 'a workqueue \<Rightarrow> 'a workqueue" where
  "Done x q =
     (if x \<in> dirty q
      then q\<lparr>queued := queued q @ [x], in_flight := in_flight q - {x}, dirty := dirty q - {x}\<rparr>
      else q\<lparr>in_flight := in_flight q - {x}\<rparr>)"

text \<open>Modelled from the spec: \<open>ShutDown\<close> sets the flag that releases \<open>Get\<close>.\<close>

definition ShutDown :: "'a workqueue \<Rightarrow> 'a workqueue" where
  "ShutDown q = q\<lparr>shutting_down := True\<rparr>"

text \<open>The items successive \<open>Get\<close> calls hand out while nobody calls \<open>Done\<close>.\<close>

fun drain :: "nat \<Rightarrow> 'a workqueue \<Rightarrow> 'a list" where
  "drain 0 q = []"
| "drain (Suc n) q = (case Get q of Got x q' \<Rightarrow> x # drain n q' | Quit \<Rightarrow> [] | Wait \<Rightarrow> [])"

section \<open>External collaborators\<close>

text \<open>
  What \<open>http.Get\<close> hands back when the transport worked: the status code and what
  \<open>ioutil.ReadAll\<close> returns on the body.
\<close>

record response =
  StatusCode :: nat
  Body :: "error + string"

text \<open>
  Library calls whose code is outside the sources are parameters:
  \<open>meta.Accessor\<close> returns the Go pair (accessor, error), the accessor represented by
  what its \<open>GetNamespace()\<close> yields and \<open>None\<close> standing for nil;
  \<open>http.Get\<close> returns a transport error or a response; \<open>strings.ToLower\<close>; and
  \<open>url.Values.Encode\<close> applied to the values built from the parameter map.
\<close>

record env =
  Accessor :: "object \<Rightarrow> string option \<times> error option"
  http_Get :: "string \<Rightarrow> error + response"
  ToLower :: "string \<Rightarrow> string"
  Encode :: "(string \<rightharpoonup> string) \<Rightarrow> string"

text \<open>
  \<open>fmt.Sprintf\<close> for format strings whose only verb is \<open>%s\<close> on string operands (the
  two formats that reach it here): each \<open>%s\<close> consumes one operand, a missing operand
  and surplus operands are reported the way the fmt package does; every other character
  is copied.
\<close>

fun extra_operands :: "string list \<Rightarrow> string" where
  "extra_operands [] = []"
| "extra_operands [a] = ''string='' @ a"
| "extra_operands (a # b # as) = ''string='' @ a @ '', '' @ extra_operands (b # as)"

fun Sprintf :: "string \<Rightarrow> string list \<Rightarrow> string" where
  "Sprintf [] as = (if as = [] then [] else ''%!(EXTRA '' @ extra_operands as @ '')'')"
| "Sprintf [c] as = c # Sprintf [] as"
| "Sprintf (c # d # fmt) as =
     (if c = CHR ''%'' \<and> d = CHR ''s''
      then (if as = [] then ''%!s(MISSING)'' @ Sprintf fmt [] else hd as @ Sprintf fmt (tl as))
      else c # Sprintf (d # fmt) as)"

section \<open>State of the controller\<close>

text \<open>
  The handler closures of one informer share one environment: the variable \<open>name\<close>
  they captured, given by the number of its storage cell.
\<close>

record handler_funcs =
  captured_name :: nat

text \<open>What \<open>framework.NewInformer\<close> was called with.\<close>

record informer =
  ListFunc :: client_op
  WatchFunc :: client_op
  informer_objType :: objtype
  resyncPeriod :: nat
  handlers :: handler_funcs

text \<open>
  The controller struct (\<open>controllers\<close>, \<open>queue\<close>) together with the memory the
  program touches: the heap of allocated events with its allocation counter, the storage
  cells of captured variables, and the trace of effects so far.
\<close>

record state =
  controllers :: "string \<rightharpoonup> informer"
  queue :: "item workqueue"
  heap :: "addr \<rightharpoonup> analyticsEvent"
  allocs :: nat
  vars :: "nat \<Rightarrow> string"
  trace :: "effect list"

text \<open>How a call ends: it returns, it panics, or it stays blocked inside \<open>Get\<close>.\<close>

datatype outcome = Return state | Panic state | Block state

fun state_of :: "outcome \<Rightarrow> state" where
  "state_of (Return s) = s"
| "state_of (Panic s) = s"
| "state_of (Block s) = s"

definition emit :: "effect \<Rightarrow> state \<Rightarrow> state" where
  "emit e s = s\<lparr>trace := trace s @ [e]\<rparr>"

definition deref :: "state \<Rightarrow> item \<Rightarrow> analyticsEvent option" where
  "deref s i = (case i of EventPtr a \<Rightarrow> heap s a | Other n \<Rightarrow> None)"

section \<open>Enqueueing\<close>

text \<open>\<open>newEvent\<close>: allocate a struct with the three fields and return its address.\<close>

definition newEvent :: "string \<Rightarrow> string \<Rightarrow> string \<Rightarrow> state \<Rightarrow> item \<times> state" where
  "newEvent objName act ns s =
     (EventPtr (allocs s),
      s\<lparr>heap := (heap s)(allocs s \<mapsto> \<lparr>objectName = objName, action = act, namespace = ns\<rparr>),
        allocs := Suc (allocs s)\<rparr>)"

definition enqueue :: "string \<Rightarrow> string \<Rightarrow> string \<Rightarrow> state \<Rightarrow> state" where
  "enqueue objName act ns s =
     (let s1 = emit (Infof 3 ''Enqueueing for tracking %s %s %s'' [S objName, S act, S ns]) s;
          (p, s2) = newEvent objName act ns s1
      in emit (QueueAdd p) (s2\<lparr>queue := Add p (queue s2)\<rparr>))"

section \<open>The notification handlers\<close>

text \<open>
  Each handler asks for the accessor, logs when that fails, and goes on in either case to
  \<open>ctrl.enqueue(name, action, meta.GetNamespace())\<close>: the operands are evaluated first,
  \<open>name\<close> read from the captured variable, and calling \<open>GetNamespace\<close> on a nil
  accessor panics before anything is enqueued.
\<close>

definition AddFunc :: "env \<Rightarrow> handler_funcs \<Rightarrow> object \<Rightarrow> state \<Rightarrow> outcome" where
  "AddFunc env h obj s =
     (case Accessor env obj of (m, err) \<Rightarrow>
        let s1 = (case err of None \<Rightarrow> s
                  | Some e \<Rightarrow> emit (Errorf ''object has no meta: %v'' [E e]) s)
        in (case m of
              None \<Rightarrow> Panic s1
            | Some ns \<Rightarrow> Return (enqueue (vars s1 (captured_name h)) ''add'' ns s1)))"

definition UpdateFunc :: "env \<Rightarrow> handler_funcs \<Rightarrow> object \<Rightarrow> object \<Rightarrow> state \<Rightarrow> outcome" where
  "UpdateFunc env h oldObj newObj s =
     (case Accessor env newObj of (m, err) \<Rightarrow>
        let s1 = (case err of None \<Rightarrow> s
                  | Some e \<Rightarrow> emit (Errorf ''object has no meta: %v'' [E e]) s)
        in (case m of
              None \<Rightarrow> Panic s1
            | Some ns \<Rightarrow> Return (enqueue (vars s1 (captured_name h)) ''update'' ns s1)))"

text \<open>The type assertion of \<open>DeleteFunc\<close>: a tombstone is replaced by its \<open>Obj\<close>.\<close>

fun unwrap :: "object \<Rightarrow> object" where
  "unwrap (DeletedFinalStateUnknown k inner) = inner"
| "unwrap (Value n) = Value n"

definition DeleteFunc :: "env \<Rightarrow> handler_funcs \<Rightarrow> object \<Rightarrow> state \<Rightarrow> outcome" where
  "DeleteFunc env h obj0 s =
     (let obj = unwrap obj0 in
      case Accessor env obj of (m, err) \<Rightarrow>
        let s1 = (case err of None \<Rightarrow> s
                  | Some e \<Rightarrow> emit (Errorf ''object has no meta: %v'' [E e]) s)
        in (case m of
              None \<Rightarrow> Panic s1
            | Some ns \<Rightarrow> Return (enqueue (vars s1 (captured_name h)) ''delete'' ns s1)))"

section \<open>Construction\<close>

text \<open>
  One iteration of \<open>for name, watch := range watches\<close>: the key is assigned to the
  variable \<open>name\<close> (cell \<open>v\<close>), the informer is built from the entry with resync 0 and
  handler closures that refer to that variable, and it is stored under the key.
\<close>

definition range_body :: "nat \<Rightarrow> string \<Rightarrow> state \<Rightarrow> state" where
  "range_body v name s =
     (case watches name of
        None \<Rightarrow> s
      | Some w \<Rightarrow>
          let s1 = s\<lparr>vars := (vars s)(v := name)\<rparr>;
              c = \<lparr>ListFunc = listFunc w, WatchFunc = watchFunc w,
                   informer_objType = objType w, resyncPeriod = 0,
                   handlers = \<lparr>captured_name = v\<rparr>\<rparr>
          in s1\<lparr>controllers := (controllers s1)(name \<mapsto> c)\<rparr>)"

text \<open>
  \<open>NewThirdPartyAnalyticsController\<close>. Go leaves the iteration order of a map
  unspecified, so the order in which \<open>range\<close> yields the keys is the parameter \<open>order\<close>.
  In the Go version of this source (before 1.22) a \<open>range\<close> statement declares its
  variables once for the whole loop: every iteration assigns to the same cell, here cell 0,
  and all closures created in the body share it.
\<close>

definition NewThirdPartyAnalyticsController :: "string list \<Rightarrow> state" where
  "NewThirdPartyAnalyticsController order =
     (let ctrl = \<lparr>controllers = Map.empty, queue = workqueue_New, heap = Map.empty,
                  allocs = 0, vars = (\<lambda>_. []), trace = []\<rparr>
      in fold (range_body 0) order ctrl)"

definition kinds :: "string list" where
  "kinds = map fst watches_table"

section \<open>Starting the controller\<close>

text \<open>
  \<open>Run\<close> starts one goroutine per informer (in the map's iteration order, again a
  parameter) and \<open>workers\<close> goroutines that run \<open>worker\<close> under \<open>wait.Until\<close>; it
  returns the tasks it started and changes nothing but the log.
\<close>

datatype task = Controller_Run string | Until_worker

definition Run :: "string list \<Rightarrow> nat \<Rightarrow> state \<Rightarrow> task list \<times> state" where
  "Run order workers s =
     (let s1 = emit (Infof 5 ''Starting ThirdPartyAnalyticsController\<newline>'' []) s;
          names = filter (\<lambda>name. controllers s name \<noteq> None) order;
          s2 = fold (\<lambda>name. emit (Infof 5 ''Starting watch for %s'' [S name])) names s1
      in (map Controller_Run names @ replicate workers Until_worker, s2))"

section \<open>The tracking sink\<close>

text \<open>
  \<open>TrackEvent\<close>: encode the parameters, log them, and for method GET fetch the
  endpoint with the encoded parameters filled in. A transport error is returned as it
  is, a failure to read the body is wrapped; nothing else is looked at. Any other method
  makes no call at all.
\<close>

definition TrackEvent ::
  "env \<Rightarrow> (string \<rightharpoonup> string) \<Rightarrow> string \<Rightarrow> string \<Rightarrow> state \<Rightarrow> error option \<times> state" where
  "TrackEvent env params method endpoint s =
     (let encodedUrl = Encode env params;
          s1 = emit (Infof 3 ''Tracking data: %s'' [S encodedUrl]) s
      in if method = ''GET''
         then (let url = Sprintf endpoint [encodedUrl];
                   s2 = emit (HttpGet url) s1
               in case http_Get env url of
                    Inl err \<Rightarrow> (Some err, s2)
                  | Inr resp \<Rightarrow>
                      (case Body resp of
                         Inl err \<Rightarrow> (Some (Errorf_error ''error tracking event: %v'' err), s2)
                       | Inr b \<Rightarrow> (None, s2)))
         else (None, s1))"

text \<open>The map literal \<open>params\<close> of \<open>track\<close>.\<close>

definition track_params :: "env \<Rightarrow> string \<Rightarrow> string \<Rightarrow> string \<Rightarrow> (string \<rightharpoonup> string)" where
  "track_params env objName act ns =
     [''host'' \<mapsto> ''dev.openshift.redhat.com'',
      ''event'' \<mapsto> Sprintf ''%s_%s'' [ToLower env objName, ToLower env act],
      ''cv_email'' \<mapsto> ns,
      ''cv_project_namespace'' \<mapsto> ns]"

definition track :: "env \<Rightarrow> string \<Rightarrow> string \<Rightarrow> string \<Rightarrow> state \<Rightarrow> error option \<times> state" where
  "track env objName act ns s =
     (case TrackEvent env (track_params env objName act ns) ''GET''
             ''http://www.woopra.com/track/ce?%s'' s of
        (Some err, s') \<Rightarrow> (Some (Errorf_error ''Error sending track event: %v'' err), s')
      | (None, s') \<Rightarrow> (None, s'))"

section \<open>The worker\<close>

text \<open>The deferred \<open>c.queue.Done(obj)\<close>.\<close>

definition queue_Done :: "item \<Rightarrow> state \<Rightarrow> state" where
  "queue_Done obj s = emit (QueueDone obj) (s\<lparr>queue := Done obj (queue s)\<rparr>)"

text \<open>
  One call of the function literal inside the worker's loop. When \<open>Get\<close> reports
  shutdown the literal returns; otherwise \<open>Done\<close> is deferred, an item that is a
  \<open>*analyticsEvent\<close> is tracked and a tracking error logged, and the deferred call runs
  on the way out (also when reading the fields through a nil pointer panics).
\<close>

definition worker_body :: "env \<Rightarrow> state \<Rightarrow> outcome" where
  "worker_body env s =
     (case Get (queue s) of
        Wait \<Rightarrow> Block s
      | Quit \<Rightarrow> Return (emit QueueGet s)
      | Got obj q' \<Rightarrow>
          let s1 = emit QueueGet (s\<lparr>queue := q'\<rparr>) in
          (case obj of
             Other n \<Rightarrow> Return (queue_Done obj s1)
           | EventPtr a \<Rightarrow>
               (case heap s1 a of
                  None \<Rightarrow> Panic (queue_Done obj s1)
                | Some e \<Rightarrow>
                    (case track env (objectName e) (action e) (namespace e) s1 of
                       (None, s2) \<Rightarrow> Return (queue_Done obj s2)
                     | (Some err, s2) \<Rightarrow>
                         Return (queue_Done obj
                           (emit (Errorf ''Error tracking event: %s %s %s %v''
                                    [S (objectName e), S (action e), S (namespace e), E err])
                              s2))))))"

text \<open>
  \<open>worker\<close>: \<open>for { func() { ... }() }\<close>. The loop has no exit of its own: after the
  literal returns, the next iteration starts. Fuel bounds the number of iterations;
  \<open>None\<close> means the loop is still running when the fuel is used up.
\<close>

fun worker :: "env \<Rightarrow> nat \<Rightarrow> state \<Rightarrow> outcome option" where
  "worker env 0 s = None"
| "worker env (Suc n) s =
     (case worker_body env s of
        Return s' \<Rightarrow> worker env n s'
      | Panic s' \<Rightarrow> Some (Panic s')
      | Block s' \<Rightarrow> Some (Block s'))"

section \<open>Concrete inputs\<close>

text \<open>
  Environments used to run the definitions: lower-casing of ASCII letters, an encoder
  that joins the four tracking parameters in key order, an accessor that finds the
  namespace \<open>ns1\<close>, and an endpoint that answers 200.
\<close>

definition ascii_lower :: "string \<Rightarrow> string" where
  "ascii_lower str =
     map (\<lambda>c. if 65 \<le> (of_char c :: nat) \<and> (of_char c :: nat) \<le> 90
              then char_of ((of_char c :: nat) + 32) else c) str"

fun encode_keys :: "string list \<Rightarrow> (string \<rightharpoonup> string) \<Rightarrow> string" where
  "encode_keys [] p = []"
| "encode_keys (k # ks) p =
     (case p k of
        None \<Rightarrow> encode_keys ks p
      | Some v \<Rightarrow> k @ ''='' @ v @ (if ks = [] then [] else ''&'') @ encode_keys ks p)"

definition env_ok :: env where
  "env_ok =
     \<lparr>Accessor = (\<lambda>obj. (Some ''ns1'', None)),
      http_Get = (\<lambda>url. Inr \<lparr>StatusCode = 200, Body = Inr []\<rparr>),
      ToLower = ascii_lower,
      Encode = encode_keys [''cv_email'', ''cv_project_namespace'', ''event'', ''host'']\<rparr>"

text \<open>The accessor fails on every object.\<close>

definition env_no_meta :: env where
  "env_no_meta = env_ok\<lparr>Accessor := (\<lambda>obj. (None, Some (Err ''object does not implement the Object interfaces'')))\<rparr>"

text \<open>The endpoint answers every request with status 500 and a readable body.\<close>

definition env_500 :: env where
  "env_500 = env_ok\<lparr>http_Get := (\<lambda>url. Inr \<lparr>StatusCode = 500, Body = Inr ''Internal Server Error''\<rparr>)\<rparr>"

text \<open>The transport fails on every request.\<close>

definition env_down :: env where
  "env_down = env_ok\<lparr>http_Get := (\<lambda>url. Inl (Err ''connection refused''))\<rparr>"

text \<open>The controller as constructed when \<open>range\<close> yields the keys in the order of the source text.\<close>

definition ctrl0 :: state where
  "ctrl0 = NewThirdPartyAnalyticsController kinds"

text \<open>Three observations of the same kind, action and namespace before any worker runs.\<close>

definition three_enqueues :: state where
  "three_enqueues =
     enqueue ''pod'' ''add'' ''ns1'' (enqueue ''pod'' ''add'' ''ns1'' (enqueue ''pod'' ''add'' ''ns1'' ctrl0))"

text \<open>The informer built for the key \<open>pod\<close>.\<close>

definition pod_informer :: informer where
  "pod_informer =
     \<lparr>ListFunc = List_op (Pods NamespaceAll), WatchFunc = Watch_op (Pods NamespaceAll),
      informer_objType = Pod, resyncPeriod = 0, handlers = \<lparr>captured_name = 0\<rparr>\<rparr>"



definition one_foreign :: state where
  "one_foreign = ctrl0\<lparr>queue := Add (Other 7) (queue ctrl0)\<rparr>"

text \<open>A controller whose empty queue has been shut down.\<close>

definition shut_down :: state where
  "shut_down = ctrl0\<lparr>queue := ShutDown (queue ctrl0)\<rparr>"

section \<open>What a registration is checked for\<close>

text \<open>
  A registration under key \<open>K\<close> never resyncs and its list and watch operations cover
  all namespaces: the namespaced collections are called with \<open>api.NamespaceAll\<close>, and
  the key \<open>namespace\<close> uses the cluster-scoped collection \<open>Namespaces()\<close>.
\<close>

definition registration_ok :: "string \<Rightarrow> informer \<Rightarrow> bool" where
  "registration_ok K c =
     (resyncPeriod c = 0 \<and> all_namespaces (ListFunc c) \<and> all_namespaces (WatchFunc c)
      \<and> (if K = ''namespace''
           then ListFunc c = List_op Namespaces \<and> WatchFunc c = Watch_op Namespaces
           else namespace_arg (collection_of (ListFunc c)) = Some NamespaceAll
              \<and> namespace_arg (collection_of (WatchFunc c)) = Some NamespaceAll))"

section \<open>Facts about construction\<close>

lemma fold_range_body_queue: "queue (fold (range_body v) order s) = queue s"
  by (induction order arbitrary: s) (simp_all add: range_body_def Let_def split: option.splits)

lemma fold_range_body_allocs: "allocs (fold (range_body v) order s) = allocs s"
  by (induction order arbitrary: s) (simp_all add: range_body_def Let_def split: option.splits)

lemma fold_range_body_heap: "heap (fold (range_body v) order s) = heap s"
  by (induction order arbitrary: s) (simp_all add: range_body_def Let_def split: option.splits)

lemma fold_range_body_trace: "trace (fold (range_body v) order s) = trace s"
  by (induction order arbitrary: s) (simp_all add: range_body_def Let_def split: option.splits)

lemma new_controller_queue: "queue (NewThirdPartyAnalyticsController order) = workqueue_New"
  by (simp add: NewThirdPartyAnalyticsController_def fold_range_body_queue)

lemma new_controller_allocs: "allocs (NewThirdPartyAnalyticsController order) = 0"
  by (simp add: NewThirdPartyAnalyticsController_def fold_range_body_allocs)

lemma new_controller_trace: "trace (NewThirdPartyAnalyticsController order) = []"
  by (simp add: NewThirdPartyAnalyticsController_def fold_range_body_trace)

section \<open>Enqueueing the same observation repeatedly\<close>

lemma drain_all: "length (queued q) \<le> m \<Longrightarrow> drain m q = queued q"
proof (induction m arbitrary: q)
  case 0
  then show ?case by simp
next
  case (Suc m)
  show ?case
  proof (cases "queued q")
    case Nil
    then show ?thesis by (simp add: Get_def)
  next
    case (Cons x xs)
    with Suc.prems have "length xs \<le> m" by simp
    then have "drain m (q\<lparr>queued := xs, in_flight := insert x (in_flight q)\<rparr>) = xs"
      using Suc.IH [of "q\<lparr>queued := xs, in_flight := insert x (in_flight q)\<rparr>"] by simp
    with Cons show ?thesis by (simp add: Get_def)
  qed
qed

lemma enqueue_fresh:
  assumes "\<not> shutting_down (queue s)" "in_flight (queue s) = {}"
    "EventPtr (allocs s) \<notin> set (queued (queue s))"
  shows "enqueue k a ns s =
     s\<lparr>queue := (queue s)\<lparr>queued := queued (queue s) @ [EventPtr (allocs s)]\<rparr>,
       heap := (heap s)(allocs s \<mapsto> \<lparr>objectName = k, action = a, namespace = ns\<rparr>),
       allocs := Suc (allocs s),
       trace := trace s @ [Infof 3 ''Enqueueing for tracking %s %s %s'' [S k, S a, S ns],
                           QueueAdd (EventPtr (allocs s))]\<rparr>"
  using assms by (simp add: enqueue_def newEvent_def emit_def Add_def Let_def)

lemma enqueue_n:
  assumes "queue s = workqueue_New"
  shows "queue ((enqueue k a ns ^^ n) s) =
           workqueue_New\<lparr>queued := map EventPtr [allocs s ..< allocs s + n]\<rparr>
       \<and> allocs ((enqueue k a ns ^^ n) s) = allocs s + n
       \<and> (\<forall>j. allocs s \<le> j \<and> j < allocs s + n \<longrightarrow>
             heap ((enqueue k a ns ^^ n) s) j =
               Some \<lparr>objectName = k, action = a, namespace = ns\<rparr>)"
proof (induction n)
  case 0
  then show ?case using assms by (auto simp add: workqueue_New_def)
next
  case (Suc n)
  let ?t = "(enqueue k a ns ^^ n) s"
  from Suc have q: "queue ?t = workqueue_New\<lparr>queued := map EventPtr [allocs s ..< allocs s + n]\<rparr>"
    and al: "allocs ?t = allocs s + n"
    and hp: "\<forall>j. allocs s \<le> j \<and> j < allocs s + n \<longrightarrow>
               heap ?t j = Some \<lparr>objectName = k, action = a, namespace = ns\<rparr>"
    by simp_all
  have e: "enqueue k a ns ?t =
     ?t\<lparr>queue := (queue ?t)\<lparr>queued := queued (queue ?t) @ [EventPtr (allocs ?t)]\<rparr>,
        heap := (heap ?t)(allocs ?t \<mapsto> \<lparr>objectName = k, action = a, namespace = ns\<rparr>),
        allocs := Suc (allocs ?t),
        trace := trace ?t @ [Infof 3 ''Enqueueing for tracking %s %s %s'' [S k, S a, S ns],
                             QueueAdd (EventPtr (allocs ?t))]\<rparr>"
    by (rule enqueue_fresh) (auto simp add: q al workqueue_New_def)
  show ?case
    by (simp add: e q al hp workqueue_New_def)
qed

lemma enqueue_n_drain:
  assumes "queue s = workqueue_New" and "n \<le> m"
  shows "drain m (queue ((enqueue k a ns ^^ n) s)) = map EventPtr [allocs s ..< allocs s + n]
       \<and> map (deref ((enqueue k a ns ^^ n) s)) (drain m (queue ((enqueue k a ns ^^ n) s)))
           = replicate n (Some \<lparr>objectName = k, action = a, namespace = ns\<rparr>)"
proof -
  let ?t = "(enqueue k a ns ^^ n) s"
  note en = enqueue_n [OF assms(1), where k = k and a = a and ns = ns and n = n]
  have d: "drain m (queue ?t) = map EventPtr [allocs s ..< allocs s + n]"
    using assms(2) en drain_all [of "queue ?t" m] by simp
  have "map (deref ?t) (map EventPtr [allocs s ..< allocs s + n])
          = replicate n (Some \<lparr>objectName = k, action = a, namespace = ns\<rparr>)"
    using en by (auto simp add: deref_def intro!: nth_equalityI)
  with d show ?thesis by simp
qed

lemma three_enqueues_funpow:
  "three_enqueues = (enqueue ''pod'' ''add'' ''ns1'' ^^ 3) ctrl0"
  by (simp add: three_enqueues_def numeral_3_eq_3)

lemma ctrl0_queue: "queue ctrl0 = workqueue_New"
  by (simp add: ctrl0_def new_controller_queue)

lemma ctrl0_allocs: "allocs ctrl0 = 0"
  by (simp add: ctrl0_def new_controller_allocs)

lemma ctrl0_trace: "trace ctrl0 = []"
  by (simp add: ctrl0_def new_controller_trace)

text \<open>
  C1 (as stated): N enqueues of a structurally equal event while no worker consumes make
  \<open>Get\<close> yield that value at most twice. It fails: after three enqueues of
  (pod, add, ns1) the next three \<open>Get\<close> calls each yield an event with these fields.
\<close>

theorem three_enqueues_yield_three:
  "map (deref three_enqueues) (drain 3 (queue three_enqueues)) =
     [Some \<lparr>objectName = ''pod'', action = ''add'', namespace = ''ns1''\<rparr>,
      Some \<lparr>objectName = ''pod'', action = ''add'', namespace = ''ns1''\<rparr>,
      Some \<lparr>objectName = ''pod'', action = ''add'', namespace = ''ns1''\<rparr>]"
proof -
  have le: "(3::nat) \<le> 3" by simp
  have r: "replicate 3 x = [x, x, x]" for x :: "analyticsEvent option"
    by (simp add: numeral_3_eq_3)
  from enqueue_n_drain [OF ctrl0_queue le, where k = "''pod''" and a = "''add''" and ns = "''ns1''",
      THEN conjunct2]
  have "map (deref three_enqueues) (drain 3 (queue three_enqueues))
        = replicate 3 (Some \<lparr>objectName = ''pod'', action = ''add'', namespace = ''ns1''\<rparr>)"
    unfolding three_enqueues_funpow .
  then show ?thesis by (simp only: r)
qed

text \<open>
  C1 (amended): every call of \<open>enqueue\<close> allocates a new event, and the queue compares
  the pointers, so N enqueues with equal kind, action and namespace on an idle queue
  leave N pending items: \<open>Get\<close> yields N distinct pointers, each to an event with these
  fields. \<open>Add\<close> is idempotent on the same item (the same pointer).
\<close>

theorem enqueue_fresh_pointer_each_call:
  assumes "queue s = workqueue_New" and "n \<le> m"
  shows "drain m (queue ((enqueue k a ns ^^ n) s)) = map EventPtr [allocs s ..< allocs s + n]
       \<and> distinct (drain m (queue ((enqueue k a ns ^^ n) s)))
       \<and> map (deref ((enqueue k a ns ^^ n) s)) (drain m (queue ((enqueue k a ns ^^ n) s)))
           = replicate n (Some \<lparr>objectName = k, action = a, namespace = ns\<rparr>)
       \<and> Add x (Add x q) = Add x q"
proof -
  note d = enqueue_n_drain [OF assms, where k = k and a = a and ns = ns]
  have items: "drain m (queue ((enqueue k a ns ^^ n) s)) = map EventPtr [allocs s ..< allocs s + n]"
    using d by (rule conjunct1)
  have vals: "map (deref ((enqueue k a ns ^^ n) s)) (drain m (queue ((enqueue k a ns ^^ n) s)))
           = replicate n (Some \<lparr>objectName = k, action = a, namespace = ns\<rparr>)"
    using d by (rule conjunct2)
  have dist: "distinct (drain m (queue ((enqueue k a ns ^^ n) s)))"
    unfolding items by (simp add: distinct_map inj_on_def)
  have idem: "Add x (Add x q) = Add x q"
    by (simp add: Add_def)
  from items dist vals idem show ?thesis by blast
qed

theorem enqueue_fresh_pointer_each_call_witness:
  "queue ctrl0 = workqueue_New \<and> (2::nat) \<le> 2
   \<and> drain 2 (queue ((enqueue ''pod'' ''add'' ''ns1'' ^^ 2) ctrl0)) = [EventPtr 0, EventPtr 1]
   \<and> Add (EventPtr 0) (Add (EventPtr 0) (workqueue_New :: item workqueue))
       = Add (EventPtr 0) workqueue_New"
proof -
  have le: "(2::nat) \<le> 2" by simp
  have u: "[0 ..< 2] = [0, Suc 0]" by (simp add: upt_rec numeral_2_eq_2)
  from enqueue_fresh_pointer_each_call [OF ctrl0_queue le, where k = "''pod''" and a = "''add''"
      and ns = "''ns1''" and x = "EventPtr 0" and q = "workqueue_New"]
  show ?thesis by (simp add: ctrl0_queue ctrl0_allocs u)
qed

section \<open>The captured loop variable\<close>

lemma watches_dom: "dom watches = set kinds"
  by (simp add: watches_def kinds_def dom_map_of_conv_image_fst)

lemma kinds_eq: "kinds = [''pod'', ''replication_controller'', ''pvclaim'', ''secret'', ''service'',
   ''namespace'', ''deployment'', ''route'', ''build'', ''template'']"
  by (simp add: kinds_def watches_table_def)

lemma fold_range_body_vars:
  assumes "order \<noteq> []" "set order \<subseteq> dom watches"
  shows "vars (fold (range_body v) order s) v = last order"
  using assms
proof (induction order arbitrary: s)
  case Nil then show ?case by simp
next
  case (Cons k ks)
  then obtain w where w: "watches k = Some w" by auto
  show ?case
  proof (cases "ks = []")
    case True
    then show ?thesis using w by (simp add: range_body_def Let_def)
  next
    case False
    then show ?thesis using Cons by simp
  qed
qed

lemma fold_range_body_handlers:
  assumes "\<forall>K c. controllers s K = Some c \<longrightarrow> captured_name (handlers c) = v"
    and "controllers (fold (range_body v) order s) K = Some c"
  shows "captured_name (handlers c) = v"
  using assms
proof (induction order arbitrary: s)
  case Nil then show ?case by simp
next
  case (Cons k ks)
  have "\<forall>K c. controllers (range_body v k s) K = Some c \<longrightarrow> captured_name (handlers c) = v"
    using Cons.prems(1) by (auto simp add: range_body_def Let_def split: option.splits if_splits)
  then show ?case using Cons.IH [of "range_body v k s"] Cons.prems(2) by simp
qed

lemma new_controller_handlers:
  "controllers (NewThirdPartyAnalyticsController order) K = Some c \<Longrightarrow> captured_name (handlers c) = 0"
  unfolding NewThirdPartyAnalyticsController_def Let_def
  by (rule fold_range_body_handlers [where s = "\<lparr>controllers = Map.empty, queue = workqueue_New, heap = Map.empty,
                  allocs = 0, vars = (\<lambda>_. []), trace = []\<rparr>"]) simp_all

lemma new_controller_vars:
  "order \<noteq> [] \<Longrightarrow> set order \<subseteq> set kinds \<Longrightarrow> vars (NewThirdPartyAnalyticsController order) 0 = last order"
  by (simp add: NewThirdPartyAnalyticsController_def fold_range_body_vars watches_dom)

text \<open>
  C2: an add, update or delete notification delivered to the watcher built for kind K is
  enqueued with kind K, whatever other kinds are registered. The code does otherwise: the
  three closures read the loop variable \<open>name\<close> when they are called, after the loop
  has ended, so every informer enqueues under the key that \<open>range\<close> yielded last.
\<close>

theorem handlers_share_range_variable:
  assumes "order \<noteq> []" and "set order \<subseteq> set kinds"
    and "controllers (NewThirdPartyAnalyticsController order) K = Some c"
    and "Accessor env obj = (Some ns, None)"
  shows "AddFunc env (handlers c) obj (NewThirdPartyAnalyticsController order)
           = Return (enqueue (last order) ''add'' ns (NewThirdPartyAnalyticsController order))
       \<and> UpdateFunc env (handlers c) old obj (NewThirdPartyAnalyticsController order)
           = Return (enqueue (last order) ''update'' ns (NewThirdPartyAnalyticsController order))
       \<and> DeleteFunc env (handlers c) (DeletedFinalStateUnknown key obj) (NewThirdPartyAnalyticsController order)
           = Return (enqueue (last order) ''delete'' ns (NewThirdPartyAnalyticsController order))"
  using assms(4) new_controller_handlers [OF assms(3)] new_controller_vars [OF assms(1,2)]
  by (simp add: AddFunc_def UpdateFunc_def DeleteFunc_def)

lemma ctrl0_pod: "controllers ctrl0 ''pod'' = Some pod_informer"
  by (simp add: ctrl0_def NewThirdPartyAnalyticsController_def kinds_eq range_body_def watches_def watches_table_def pod_informer_def Let_def)

lemma last_kinds: "last kinds = ''template''" by (simp add: kinds_eq)

theorem handlers_share_range_variable_witness:
  "kinds \<noteq> [] \<and> set kinds \<subseteq> set kinds
   \<and> controllers (NewThirdPartyAnalyticsController kinds) ''pod'' = Some pod_informer
   \<and> Accessor env_ok (Value 0) = (Some ''ns1'', None)
   \<and> AddFunc env_ok (handlers pod_informer) (Value 0) (NewThirdPartyAnalyticsController kinds)
       = Return (enqueue ''template'' ''add'' ''ns1'' (NewThirdPartyAnalyticsController kinds))"
proof -
  have n: "kinds \<noteq> []" by (simp add: kinds_eq)
  have p: "controllers (NewThirdPartyAnalyticsController kinds) ''pod'' = Some pod_informer"
    using ctrl0_pod by (simp add: ctrl0_def)
  have a: "Accessor env_ok (Value 0) = (Some ''ns1'', None)" by (simp add: env_ok_def)
  from handlers_share_range_variable [OF n subset_refl p a]
  show ?thesis using n p a by (simp add: last_kinds)
qed

text \<open>
  C3: a notification whose metadata accessor fails is logged and dropped, and the
  watcher goes on. The code does otherwise: after logging there is no return, the handler
  goes on to call \<open>GetNamespace\<close> on the nil accessor and panics.
\<close>

theorem accessor_failure_panics:
  assumes "Accessor env obj = (None, Some e)"
  shows "AddFunc env h obj s = Panic (emit (Errorf ''object has no meta: %v'' [E e]) s)
       \<and> UpdateFunc env h old obj s = Panic (emit (Errorf ''object has no meta: %v'' [E e]) s)
       \<and> DeleteFunc env h (DeletedFinalStateUnknown key obj) s
           = Panic (emit (Errorf ''object has no meta: %v'' [E e]) s)"
  using assms by (simp add: AddFunc_def UpdateFunc_def DeleteFunc_def)

theorem accessor_failure_panics_witness:
  "Accessor env_no_meta (Value 0) = (None, Some (Err ''object does not implement the Object interfaces''))
   \<and> AddFunc env_no_meta (handlers pod_informer) (Value 0) ctrl0
       = Panic (emit (Errorf ''object has no meta: %v'' [E (Err ''object does not implement the Object interfaces'')]) ctrl0)"
proof -
  have a: "Accessor env_no_meta (Value 0) = (None, Some (Err ''object does not implement the Object interfaces''))"
    by (simp add: env_no_meta_def)
  from accessor_failure_panics [OF a] show ?thesis using a by simp
qed

text \<open>
  C7 (as stated): every delete notification enqueues an event with action delete. It
  fails for a deleted object without metadata: the handler logs and panics, the queue
  stays empty.
\<close>

theorem delete_without_meta_enqueues_nothing:
  "DeleteFunc env_no_meta (handlers pod_informer) (Value 0) ctrl0
     = Panic (emit (Errorf ''object has no meta: %v'' [E (Err ''object does not implement the Object interfaces'')]) ctrl0)
   \<and> queued (queue (state_of (DeleteFunc env_no_meta (handlers pod_informer) (Value 0) ctrl0))) = []
   \<and> trace (state_of (DeleteFunc env_no_meta (handlers pod_informer) (Value 0) ctrl0))
       = [Errorf ''object has no meta: %v'' [E (Err ''object does not implement the Object interfaces'')]]"
  by (simp add: DeleteFunc_def env_no_meta_def emit_def ctrl0_queue ctrl0_trace workqueue_New_def)

text \<open>
  C7 (amended): for every delete notification whose object, after a tombstone has been
  replaced by the object inside it, has accessible metadata, the handler enqueues a new
  event with action delete and the namespace of that object's metadata.
\<close>

theorem delete_enqueues_delete_event:
  assumes "Accessor env (unwrap obj) = (Some ns, None)"
  shows "DeleteFunc env h obj s = Return (enqueue (vars s (captured_name h)) ''delete'' ns s)
       \<and> deref (enqueue (vars s (captured_name h)) ''delete'' ns s) (EventPtr (allocs s))
           = Some \<lparr>objectName = vars s (captured_name h), action = ''delete'', namespace = ns\<rparr>
       \<and> trace (enqueue (vars s (captured_name h)) ''delete'' ns s)
           = trace s @ [Infof 3 ''Enqueueing for tracking %s %s %s''
                          [S (vars s (captured_name h)), S ''delete'', S ns],
                        QueueAdd (EventPtr (allocs s))]
       \<and> unwrap (DeletedFinalStateUnknown key inner) = inner"
  using assms
  by (simp add: DeleteFunc_def enqueue_def newEvent_def emit_def deref_def Let_def)

theorem delete_enqueues_delete_event_witness:
  "Accessor env_ok (unwrap (DeletedFinalStateUnknown ''ns1/web'' (Value 0))) = (Some ''ns1'', None)
   \<and> DeleteFunc env_ok (handlers pod_informer) (DeletedFinalStateUnknown ''ns1/web'' (Value 0)) ctrl0
       = Return (enqueue (vars ctrl0 0) ''delete'' ''ns1'' ctrl0)
   \<and> deref (enqueue (vars ctrl0 0) ''delete'' ''ns1'' ctrl0) (EventPtr 0)
       = Some \<lparr>objectName = vars ctrl0 0, action = ''delete'', namespace = ''ns1''\<rparr>"
proof -
  have a: "Accessor env_ok (unwrap (DeletedFinalStateUnknown ''ns1/web'' (Value 0))) = (Some ''ns1'', None)"
    by (simp add: env_ok_def)
  from delete_enqueues_delete_event [OF a, where h = "handlers pod_informer" and s = ctrl0]
  show ?thesis using a by (simp add: pod_informer_def ctrl0_allocs)
qed

section \<open>Shutdown, the sink and the worker\<close>

lemma worker_spins:
  "shutting_down (queue s) \<Longrightarrow> queued (queue s) = [] \<Longrightarrow> worker env n s = None"
proof (induction n arbitrary: s)
  case 0 then show ?case by simp
next
  case (Suc n)
  have b: "worker_body env s = Return (emit QueueGet s)"
    using Suc.prems by (simp add: worker_body_def Get_def)
  have "worker env n (emit QueueGet s) = None"
    using Suc.prems by (intro Suc.IH) (simp_all add: emit_def)
  with b show ?case by simp
qed

lemma worker_no_return: "worker env n s \<noteq> Some (Return s')"
  by (induction n arbitrary: s) (auto split: outcome.splits)

text \<open>
  C4: when the queue is shutting down \<open>Get\<close> reports it, and a worker that sees this
  leaves its loop. The code does otherwise: the \<open>return\<close> leaves only the function
  literal, the enclosing \<open>for\<close> starts the next iteration, and on a shut-down empty
  queue the worker calls \<open>Get\<close> again and again; for no amount of fuel does
  \<open>worker\<close> return.
\<close>

theorem worker_keeps_looping_after_shutdown:
  assumes "shutting_down (queue s)" and "queued (queue s) = []"
  shows "Get (queue s) = Quit
       \<and> worker_body env s = Return (emit QueueGet s)
       \<and> worker env n s = None
       \<and> worker env m t \<noteq> Some (Return t')"
  using assms worker_spins [OF assms] worker_no_return
  by (simp add: worker_body_def Get_def)

theorem worker_keeps_looping_after_shutdown_witness:
  "shutting_down (queue shut_down) \<and> queued (queue shut_down) = []
   \<and> Get (queue shut_down) = Quit \<and> worker env_ok 1000 shut_down = None"
proof -
  have a: "shutting_down (queue shut_down)" and b: "queued (queue shut_down) = []"
    by (simp_all add: shut_down_def ShutDown_def ctrl0_queue workqueue_New_def)
  from worker_keeps_looping_after_shutdown [OF a b, where env = env_ok and n = 1000]
  show ?thesis using a b by simp
qed

text \<open>
  C5 (as stated): the adapter reports failure whenever the endpoint returns a
  non-success response. It fails: a response with status 500 and a readable body makes
  \<open>TrackEvent\<close> return nil.
\<close>

theorem non_success_status_reported_as_success:
  "http_Get env_500 (Sprintf ''http://www.woopra.com/track/ce?%s'' [Encode env_500 (track_params env_500 ''pod'' ''add'' ''ns1'')])
     = Inr \<lparr>StatusCode = 500, Body = Inr ''Internal Server Error''\<rparr>
   \<and> fst (TrackEvent env_500 (track_params env_500 ''pod'' ''add'' ''ns1'') ''GET''
            ''http://www.woopra.com/track/ce?%s'' ctrl0) = None"
  by (simp add: TrackEvent_def env_500_def Let_def)

text \<open>
  C5 (amended): for every outbound call (method GET) the adapter reports success exactly
  when the transport returned a response and its body could be read, whatever the status
  code; it reports failure exactly when the transport failed or reading the body failed.
\<close>

theorem TrackEvent_fails_on_transport_or_body_error:
  "(fst (TrackEvent env params ''GET'' endpoint s) = None)
     = (\<exists>resp b. http_Get env (Sprintf endpoint [Encode env params]) = Inr resp \<and> Body resp = Inr b)
   \<and> (fst (TrackEvent env params ''GET'' endpoint s) \<noteq> None)
     = ((\<exists>err. http_Get env (Sprintf endpoint [Encode env params]) = Inl err)
        \<or> (\<exists>resp err. http_Get env (Sprintf endpoint [Encode env params]) = Inr resp \<and> Body resp = Inl err))"
  by (auto simp add: TrackEvent_def Let_def split: sum.splits)

lemma Sprintf_event: "Sprintf ''%s_%s'' [a, b] = a @ ''_'' @ b"
  by simp

lemma Sprintf_endpoint: "Sprintf ''http://www.woopra.com/track/ce?%s'' [a] = ''http://www.woopra.com/track/ce?'' @ a"
  by simp

theorem TrackEvent_fails_on_transport_or_body_error_witness:
  "http_Get env_down (Sprintf ''http://www.woopra.com/track/ce?%s''
       [Encode env_down (track_params env_down ''pod'' ''add'' ''ns1'')])
     = Inl (Err ''connection refused'')
   \<and> fst (TrackEvent env_down (track_params env_down ''pod'' ''add'' ''ns1'') ''GET''
            ''http://www.woopra.com/track/ce?%s'' ctrl0) \<noteq> None"
proof -
  have g: "http_Get env_down url = Inl (Err ''connection refused'')" for url
    by (simp add: env_down_def)
  from TrackEvent_fails_on_transport_or_body_error [where env = env_down
      and params = "track_params env_down ''pod'' ''add'' ''ns1''"
      and endpoint = "''http://www.woopra.com/track/ce?%s''" and s = ctrl0, THEN conjunct2]
  show ?thesis using g by blast
qed

text \<open>
  C9: the parameter map of a tracked event has exactly the keys host, event, cv_email
  and cv_project_namespace; event is the lower-cased kind, an underscore and the
  lower-cased action; the namespace is the value of both cv_email and
  cv_project_namespace; host is dev.openshift.redhat.com, and the one request goes to the
  Woopra tracking URL with the encoded parameters.
\<close>

theorem track_sends_four_parameters:
  "dom (track_params env objName act ns) = {''host'', ''event'', ''cv_email'', ''cv_project_namespace''}
   \<and> track_params env objName act ns ''host'' = Some ''dev.openshift.redhat.com''
   \<and> track_params env objName act ns ''event'' = Some (ToLower env objName @ ''_'' @ ToLower env act)
   \<and> track_params env objName act ns ''cv_email'' = Some ns
   \<and> track_params env objName act ns ''cv_project_namespace'' = Some ns
   \<and> trace (snd (track env objName act ns s))
       = trace s @ [Infof 3 ''Tracking data: %s'' [S (Encode env (track_params env objName act ns))],
                    HttpGet (''http://www.woopra.com/track/ce?'' @ Encode env (track_params env objName act ns))]"
proof -
  have d: "dom (track_params env objName act ns) = {''host'', ''event'', ''cv_email'', ''cv_project_namespace''}"
    by (auto simp add: track_params_def)
  have t: "trace (snd (track env objName act ns s))
       = trace s @ [Infof 3 ''Tracking data: %s'' [S (Encode env (track_params env objName act ns))],
                    HttpGet (''http://www.woopra.com/track/ce?'' @ Encode env (track_params env objName act ns))]"
    by (simp add: track_def TrackEvent_def Let_def emit_def Sprintf_endpoint del: Sprintf.simps split: sum.splits prod.splits option.splits)
  show ?thesis using d t by (simp add: track_params_def)
qed


lemma track_frame:
  "queue (snd (track env k a ns s)) = queue s \<and> heap (snd (track env k a ns s)) = heap s
   \<and> controllers (snd (track env k a ns s)) = controllers s"
  by (simp add: track_def TrackEvent_def Let_def emit_def split: sum.splits prod.splits option.splits)






text \<open>
  C10: for a dequeued item that is not a \<open>*analyticsEvent\<close> the worker makes no
  request and no log entry, still calls \<open>Done\<close> on it, so that it does not stay
  in-flight, and goes on to the next iteration.
\<close>

theorem foreign_item_done_without_tracking:
  assumes "Get (queue s) = Got (Other k) q'"
  shows "worker_body env s = Return (queue_Done (Other k) (emit QueueGet (s\<lparr>queue := q'\<rparr>)))
       \<and> trace (queue_Done (Other k) (emit QueueGet (s\<lparr>queue := q'\<rparr>)))
           = trace s @ [QueueGet, QueueDone (Other k)]
       \<and> queue (queue_Done (Other k) (emit QueueGet (s\<lparr>queue := q'\<rparr>))) = Done (Other k) q'
       \<and> Other k \<notin> in_flight (queue (queue_Done (Other k) (emit QueueGet (s\<lparr>queue := q'\<rparr>))))
       \<and> worker env (Suc n) s = worker env n (queue_Done (Other k) (emit QueueGet (s\<lparr>queue := q'\<rparr>)))"
  using assms by (simp add: worker_body_def queue_Done_def emit_def Done_def Let_def)

theorem foreign_item_done_without_tracking_witness:
  "Get (queue one_foreign) = Got (Other 7) (workqueue_New\<lparr>in_flight := {Other 7}\<rparr>)
   \<and> trace (state_of (worker_body env_ok one_foreign)) = [QueueGet, QueueDone (Other 7)]
   \<and> in_flight (queue (state_of (worker_body env_ok one_foreign))) = {}"
proof -
  have g: "Get (queue one_foreign) = Got (Other 7) (workqueue_New\<lparr>in_flight := {Other 7}\<rparr>)"
    by (simp add: one_foreign_def ctrl0_queue Add_def Get_def workqueue_New_def)
  from foreign_item_done_without_tracking [OF g, where env = env_ok]
  show ?thesis using g
    by (simp add: one_foreign_def ctrl0_trace Done_def workqueue_New_def queue_Done_def emit_def)
qed

section \<open>The registrations\<close>

lemma watches_entry_scope:
  assumes "watches K = Some w"
  shows "all_namespaces (listFunc w) \<and> all_namespaces (watchFunc w)
       \<and> (if K = ''namespace''
           then listFunc w = List_op Namespaces \<and> watchFunc w = Watch_op Namespaces
           else namespace_arg (collection_of (listFunc w)) = Some NamespaceAll
              \<and> namespace_arg (collection_of (watchFunc w)) = Some NamespaceAll)"
proof -
  from assms have "(K, w) \<in> set watches_table"
    unfolding watches_def by (rule map_of_SomeD)
  then have "(K, w) = watches_table ! 0 \<or> (K, w) = watches_table ! 1 \<or> (K, w) = watches_table ! 2
     \<or> (K, w) = watches_table ! 3 \<or> (K, w) = watches_table ! 4 \<or> (K, w) = watches_table ! 5
     \<or> (K, w) = watches_table ! 6 \<or> (K, w) = watches_table ! 7 \<or> (K, w) = watches_table ! 8
     \<or> (K, w) = watches_table ! 9"
    unfolding watches_table_def by (simp del: Pair_inject prod.inject)
  then show ?thesis
    unfolding watches_table_def
    by (elim disjE) (simp_all add: all_namespaces_def)
qed

lemma fold_range_body_dom:
  "dom (controllers (fold (range_body v) order s)) = dom (controllers s) \<union> (set order \<inter> dom watches)"
proof (induction order arbitrary: s)
  case Nil then show ?case by simp
next
  case (Cons k ks)
  have "dom (controllers (range_body v k s)) = dom (controllers s) \<union> ({k} \<inter> dom watches)"
    by (auto simp add: range_body_def Let_def split: option.splits)
  then show ?case using Cons.IH [of "range_body v k s"] by auto
qed

lemma fold_range_body_ok:
  assumes "\<forall>K c. controllers s K = Some c \<longrightarrow> registration_ok K c"
    and "controllers (fold (range_body v) order s) K = Some c"
  shows "registration_ok K c"
  using assms
proof (induction order arbitrary: s)
  case Nil then show ?case by simp
next
  case (Cons k ks)
  have "\<forall>K c. controllers (range_body v k s) K = Some c \<longrightarrow> registration_ok K c"
  proof (cases "watches k")
    case None
    then show ?thesis using Cons.prems(1) by (simp add: range_body_def)
  next
    case (Some w)
    from watches_entry_scope [OF Some] have "registration_ok k
        \<lparr>ListFunc = listFunc w, WatchFunc = watchFunc w,
                   informer_objType = objType w, resyncPeriod = 0,
                   handlers = \<lparr>captured_name = v\<rparr>\<rparr>"
      by (simp add: registration_ok_def)
    then show ?thesis using Some Cons.prems(1)
      by (auto simp add: range_body_def Let_def)
  qed
  then show ?case using Cons.IH [of "range_body v k s"] Cons.prems(2) by simp
qed

lemma new_controller_dom:
  "set order = set kinds \<Longrightarrow> dom (controllers (NewThirdPartyAnalyticsController order)) = set kinds"
  by (simp add: NewThirdPartyAnalyticsController_def fold_range_body_dom watches_dom)

lemma new_controller_ok:
  "controllers (NewThirdPartyAnalyticsController order) K = Some c \<Longrightarrow> registration_ok K c"
  unfolding NewThirdPartyAnalyticsController_def Let_def
  by (rule fold_range_body_ok [where s = "\<lparr>controllers = Map.empty, queue = workqueue_New, heap = Map.empty,
                  allocs = 0, vars = (\<lambda>_. []), trace = []\<rparr>"]) simp_all

lemma enqueue_controllers: "controllers (enqueue k a ns s) = controllers s"
  by (simp add: enqueue_def newEvent_def emit_def Let_def)

lemma handlers_controllers:
  "controllers (state_of (AddFunc env h obj s)) = controllers s
   \<and> controllers (state_of (UpdateFunc env h old obj s)) = controllers s
   \<and> controllers (state_of (DeleteFunc env h obj s)) = controllers s"
  by (simp add: AddFunc_def UpdateFunc_def DeleteFunc_def Let_def enqueue_controllers emit_def
      split: prod.splits option.splits)

lemma fold_emit_controllers: "controllers (fold (\<lambda>x. emit (f x)) xs s) = controllers s"
  by (induction xs arbitrary: s) (simp_all add: emit_def)

lemma Run_controllers: "controllers (snd (Run order workers s)) = controllers s"
  by (simp add: Run_def Let_def fold_emit_controllers emit_def)

lemma worker_body_controllers: "controllers (state_of (worker_body env s)) = controllers s"
proof -
  have t: "controllers s2 = controllers s1" if "track env k a ns s1 = (r, s2)" for k a ns s1 r s2
    using track_frame [of env k a ns s1] that by simp
  show ?thesis
    by (auto simp add: worker_body_def Let_def queue_Done_def emit_def
        split: get_result.splits item.splits option.splits prod.splits dest!: t)
qed

lemma worker_controllers:
  "worker env n s = Some out \<Longrightarrow> controllers (state_of out) = controllers s"
proof (induction n arbitrary: s)
  case 0 then show ?case by simp
next
  case (Suc n)
  show ?case
  proof (cases "worker_body env s")
    case (Return s')
    with Suc.prems have "worker env n s' = Some out" by simp
    then have "controllers (state_of out) = controllers s'" by (rule Suc.IH)
    with worker_body_controllers [of env s] Return show ?thesis by simp
  next
    case (Panic s')
    with Suc.prems worker_body_controllers [of env s] show ?thesis by auto
  next
    case (Block s')
    with Suc.prems worker_body_controllers [of env s] show ?thesis by auto
  qed
qed

text \<open>
  C8: the informers built at construction are those of exactly the ten kinds; each has
  resync period 0 and list and watch operations over all namespaces; and no operation of
  the controller changes the set of informers afterwards.
\<close>

theorem registrations_fixed_at_construction:
  assumes "set order = set kinds"
  shows "dom (controllers (NewThirdPartyAnalyticsController order))
           = {''pod'', ''replication_controller'', ''pvclaim'', ''secret'', ''service'',
              ''namespace'', ''deployment'', ''route'', ''build'', ''template''}
       \<and> (\<forall>K c. controllers (NewThirdPartyAnalyticsController order) K = Some c
             \<longrightarrow> registration_ok K c)
       \<and> controllers (enqueue k a ns s) = controllers s
       \<and> controllers (state_of (AddFunc env h obj s)) = controllers s
       \<and> controllers (state_of (UpdateFunc env h old obj s)) = controllers s
       \<and> controllers (state_of (DeleteFunc env h obj s)) = controllers s
       \<and> controllers (snd (Run order' workers s)) = controllers s
       \<and> controllers (snd (track env k a ns s)) = controllers s
       \<and> controllers (state_of (worker_body env s)) = controllers s
       \<and> (\<forall>n out. worker env n s = Some out \<longrightarrow> controllers (state_of out) = controllers s)"
proof -
  have d: "dom (controllers (NewThirdPartyAnalyticsController order))
           = {''pod'', ''replication_controller'', ''pvclaim'', ''secret'', ''service'',
              ''namespace'', ''deployment'', ''route'', ''build'', ''template''}"
    using new_controller_dom [OF assms] by (simp add: kinds_eq)
  have ok: "\<forall>K c. controllers (NewThirdPartyAnalyticsController order) K = Some c
             \<longrightarrow> registration_ok K c"
    using new_controller_ok by blast
  have w: "\<forall>n out. worker env n s = Some out \<longrightarrow> controllers (state_of out) = controllers s"
    using worker_controllers by blast
  have t: "controllers (snd (track env k a ns s)) = controllers s"
    using track_frame [of env k a ns s] by simp
  note h = handlers_controllers [of env h obj s old]
  show ?thesis
    apply (intro conjI)
             apply (rule d)
            apply (rule ok)
           apply (rule enqueue_controllers)
          apply (rule h [THEN conjunct1])
         apply (rule h [THEN conjunct2, THEN conjunct1])
        apply (rule h [THEN conjunct2, THEN conjunct2])
       apply (rule Run_controllers)
      apply (rule t)
     apply (rule worker_body_controllers)
    apply (rule w)
    done
qed

theorem registrations_fixed_at_construction_witness:
  "set kinds = set kinds
   \<and> dom (controllers (NewThirdPartyAnalyticsController kinds))
       = {''pod'', ''replication_controller'', ''pvclaim'', ''secret'', ''service'',
          ''namespace'', ''deployment'', ''route'', ''build'', ''template''}
   \<and> controllers (NewThirdPartyAnalyticsController kinds) ''pod'' = Some pod_informer
   \<and> registration_ok ''pod'' pod_informer
   \<and> controllers (enqueue ''pod'' ''add'' ''ns1'' ctrl0) = controllers ctrl0"
proof -
  have a: "set kinds = set kinds" by simp
  have p: "controllers (NewThirdPartyAnalyticsController kinds) ''pod'' = Some pod_informer"
    using ctrl0_pod by (simp add: ctrl0_def)
  note r = registrations_fixed_at_construction [OF a, where s = ctrl0 and k = "''pod''"
      and a = "''add''" and ns = "''ns1''"]
  from r [THEN conjunct2, THEN conjunct1] p have ok: "registration_ok ''pod'' pod_informer"
    by blast
  show ?thesis
    apply (intro conjI)
        apply (rule a)
       apply (rule r [THEN conjunct1])
      apply (rule p)
     apply (rule ok)
    apply (rule r [THEN conjunct2, THEN conjunct2, THEN conjunct1])
    done
qed

end
